theory Spec2Isabelle
  imports Complex_Main
begin

section \<open>JavaScript values\<close>

text \<open>
  The gateway (\<^verbatim>\<open>src/index.js\<close>) handles request bodies, query objects, store
  documents and store replies, all of them plain JavaScript values. A number is the
  rational it denotes, a date its timestamp, an \<^verbatim>\<open>ObjectID\<close> its twelve raw bytes.
  An object is the list of its own properties in insertion order; the names of the
  properties of an object are distinct.
\<close>

datatype jsval =
    Undefined
  | Null
  | Bool bool
  | Num rat
  | Str string
  | Date int
  | ObjectID string
  | Arr "jsval list"
  | Obj "(string \<times> jsval) list"

type_synonym props = "(string \<times> jsval) list"

datatype exn = TypeError

text \<open>The values that an \<^verbatim>\<open>if (v)\<close> or an \<^verbatim>\<open>!v\<close> takes for true.\<close>

fun truthy :: "jsval \<Rightarrow> bool" where
  "truthy Undefined = False"
| "truthy Null = False"
| "truthy (Bool b) = b"
| "truthy (Num n) = (n \<noteq> 0)"
| "truthy (Str s) = (s \<noteq> [])"
| "truthy (Date t) = True"
| "truthy (ObjectID b) = True"
| "truthy (Arr xs) = True"
| "truthy (Obj ps) = True"

text \<open>\<^verbatim>\<open>o[k]\<close> on the properties of an object: a missing property reads as undefined.\<close>

definition get_prop :: "props \<Rightarrow> string \<Rightarrow> jsval" where
  "get_prop ps k = (case map_of ps k of None \<Rightarrow> Undefined | Some v \<Rightarrow> v)"

text \<open>\<^verbatim>\<open>o[k] = v\<close>: an existing property keeps its place, a new one goes last.\<close>

fun set_prop :: "string \<Rightarrow> jsval \<Rightarrow> props \<Rightarrow> props" where
  "set_prop k v [] = [(k, v)]"
| "set_prop k v ((k', v') # ps) =
     (if k' = k then (k, v) # ps else (k', v') # set_prop k v ps)"

text \<open>\<^verbatim>\<open>delete o[k]\<close>.\<close>

definition delete_prop :: "string \<Rightarrow> props \<Rightarrow> props" where
  "delete_prop k ps = filter (\<lambda>p. fst p \<noteq> k) ps"

text \<open>
  \<^verbatim>\<open>v.k\<close> on any value, for the property names the gateway reads (\<^verbatim>\<open>ref\<close>,
  \<^verbatim>\<open>repository\<close>, \<^verbatim>\<open>full_name\<close>, \<^verbatim>\<open>name\<close>, \<^verbatim>\<open>clone_url\<close>, \<^verbatim>\<open>head_commit\<close>,
  \<^verbatim>\<open>id\<close>, \<^verbatim>\<open>pusher\<close>): reading from \<^verbatim>\<open>undefined\<close> or \<^verbatim>\<open>null\<close> throws a TypeError, an
  object yields its property, and no other value has a property of these names.
\<close>

fun member :: "jsval \<Rightarrow> string \<Rightarrow> exn + jsval" where
  "member Undefined k = Inl TypeError"
| "member Null k = Inl TypeError"
| "member (Obj ps) k = Inr (get_prop ps k)"
| "member v k = Inr Undefined"

text \<open>The own properties of a value: a value that is not an object has none.\<close>

fun props_of :: "jsval \<Rightarrow> props" where
  "props_of (Obj ps) = ps"
| "props_of v = []"

text \<open>\<^verbatim>\<open>e.k\<close> where evaluating \<^verbatim>\<open>e\<close> may already have thrown.\<close>

fun then_member :: "exn + jsval \<Rightarrow> string \<Rightarrow> exn + jsval" where
  "then_member (Inl e) k = Inl e"
| "then_member (Inr v) k = member v k"

section \<open>Store calls and what a handler does\<close>

text \<open>
  The document store is reached through the driver only. A handler's run is the list of
  driver calls it issued, in order, and how it ended: a response with a body
  (\<^verbatim>\<open>res.status(c).send(b)\<close>, where \<^verbatim>\<open>send()\<close> without argument has the body
  \<^verbatim>\<open>undefined\<close>), a bare status (\<^verbatim>\<open>res.sendStatus(c)\<close>), the documents of a cursor piped
  to the response, or an exception that nothing catches. What the driver passes to a
  callback is an argument of the handler.

  A call names the collection first; then come the document and the options of an insert,
  the selector, the replacement and the options of an update, the selector and the options
  of a remove, the filter of a find. Options that the handler does not pass are
  \<^verbatim>\<open>undefined\<close>.
\<close>

datatype call =
    Insert string jsval jsval
  | Update string jsval jsval jsval
  | Remove string jsval jsval
  | Find string jsval
  | FindOne string jsval
  | Count string

datatype outcome =
    Sent nat jsval
  | SentStatus nat
  | Piped "props list"
  | Thrown exn

record run =
  calls :: "call list"
  outcome :: outcome

section \<open>The webhook endpoint\<close>

text \<open>
  The object literal \<^verbatim>\<open>build\<close> of \<^verbatim>\<open>POST /_hook/:endpoint?\<close> (lines 63 to 75). Its property values
  are evaluated in the order written, and the first one that throws ends the construction.
\<close>

definition build_job :: "jsval \<Rightarrow> jsval \<Rightarrow> int \<Rightarrow> exn + jsval" where
  "build_job body endpoint now =
     (case then_member (member body ''repository'') ''full_name'' of
        Inl e \<Rightarrow> Inl e
      | Inr full_name \<Rightarrow>
     (case then_member (member body ''repository'') ''name'' of
        Inl e \<Rightarrow> Inl e
      | Inr name \<Rightarrow>
     (case then_member (member body ''repository'') ''clone_url'' of
        Inl e \<Rightarrow> Inl e
      | Inr clone_url \<Rightarrow>
     (case member body ''head_commit'' of
        Inl e \<Rightarrow> Inl e
      | Inr head_commit \<Rightarrow>
     (case (if truthy head_commit then member head_commit ''id'' else Inr head_commit) of
        Inl e \<Rightarrow> Inl e
      | Inr commit \<Rightarrow>
     (case member body ''pusher'' of
        Inl e \<Rightarrow> Inl e
      | Inr pusher \<Rightarrow>
          Inr (Obj [(''fullName'', full_name),
                    (''name'', name),
                    (''repo'', clone_url),
                    (''commit'', commit),
                    (''endpoint'', endpoint),
                    (''createdAt'', Date now),
                    (''buildAt'', Null),
                    (''nrOfAttempts'', Num 0),
                    (''isSuccessful'', Bool False),
                    (''message'', Null),
                    (''pusher'', pusher)])))))))"

text \<open>
  The handler of \<^verbatim>\<open>POST /_hook/:endpoint?\<close> (lines 47 to 83), after the signature
  middleware has set \<^verbatim>\<open>req.body\<close>. \<^verbatim>\<open>hook_err\<close> is what the driver passes to the callback of
  \<^verbatim>\<open>hooks.insert\<close>, \<^verbatim>\<open>queue_err\<close> what it passes to the callback of
  \<^verbatim>\<open>buildqueue.insert\<close>; \<^verbatim>\<open>now\<close> is the clock read by \<^verbatim>\<open>new Date()\<close>.
\<close>

definition hook :: "jsval \<Rightarrow> jsval \<Rightarrow> int \<Rightarrow> jsval \<Rightarrow> jsval \<Rightarrow> run" where
  "hook body endpoint now hook_err queue_err =
     (let recorded = [Insert ''_hook'' body Undefined] in
      if truthy hook_err then \<lparr>calls = recorded, outcome = Sent 500 hook_err\<rparr>
      else
        (case member body ''ref'' of
           Inl e \<Rightarrow> \<lparr>calls = recorded, outcome = Thrown e\<rparr>
         | Inr ref \<Rightarrow>
             if \<not> truthy ref then \<lparr>calls = recorded, outcome = SentStatus 204\<rparr>
             else if ref \<noteq> Str ''refs/heads/master''
               then \<lparr>calls = recorded, outcome = SentStatus 204\<rparr>
             else
               (case build_job body endpoint now of
                  Inl e \<Rightarrow> \<lparr>calls = recorded, outcome = Thrown e\<rparr>
                | Inr build \<Rightarrow>
                    (let queued = recorded @ [Insert ''buildqueue'' build Undefined] in
                     if truthy queue_err then \<lparr>calls = queued, outcome = Sent 500 queue_err\<rparr>
                     else \<lparr>calls = queued, outcome = SentStatus 201\<rparr>))))"

section \<open>Route parameters\<close>

text \<open>
  The identifier codec is the constructor \<^verbatim>\<open>mongodb.ObjectID\<close> of the store's driver,
  which is not among the sources; the definitions up to \<open>new_ObjectID\<close> follow section 4.1
  of the spec and the message that \<^verbatim>\<open>app.param('id', ...)\<close> sends.
\<close>

datatype codec_error = InvalidIdentifier

text \<open>Modelled from the spec: the characters of a hexadecimal string (\<^verbatim>\<open>mongodb.ObjectID\<close>).\<close>

definition hex_digit :: "char \<Rightarrow> bool" where
  "hex_digit c = (c \<in> set ''0123456789abcdefABCDEF'')"

text \<open>Modelled from the spec: the number a hexadecimal digit stands for (\<^verbatim>\<open>mongodb.ObjectID\<close>).\<close>

definition hex_value :: "char \<Rightarrow> nat" where
  "hex_value c =
     (let n = (of_char c :: nat)
      in if n \<le> 57 then n - 48 else if n \<le> 70 then n - 55 else n - 87)"

text \<open>
  Modelled from the spec: the bytes that a hexadecimal string spells, two digits to a byte
  (\<^verbatim>\<open>mongodb.ObjectID\<close>).
\<close>

fun from_hex :: "string \<Rightarrow> string" where
  "from_hex (a # b # cs) = char_of (16 * hex_value a + hex_value b) # from_hex cs"
| "from_hex cs = []"

text \<open>
  Modelled from the spec: the constructor \<^verbatim>\<open>mongodb.ObjectID\<close> belongs to the store's
  driver and is not among the sources. Section 4.1: it accepts exactly the store's
  12-raw-byte form or a 24-character hexadecimal string, and any other input fails with an
  invalid-identifier error. The 12-byte form is a string of twelve characters, each read as
  one byte; a hexadecimal string denotes the twelve bytes it spells.
\<close>

definition new_ObjectID :: "string \<Rightarrow> codec_error + jsval" where
  "new_ObjectID s =
     (if length s = 12 then Inr (ObjectID s)
      else if length s = 24 \<and> list_all hex_digit s then Inr (ObjectID (from_hex s))
      else Inl InvalidIdentifier)"

text \<open>
  \<^verbatim>\<open>app.param('id', ...)\<close> (lines 110 to 120): the identifier is built inside a \<^verbatim>\<open>try\<close>; when the
  constructor throws, the request is answered at once and \<^verbatim>\<open>next\<close> is not called,
  otherwise the identifier becomes \<^verbatim>\<open>req.id\<close>.
\<close>

definition invalid_id :: outcome where
  "invalid_id =
     Sent 400 (Obj [(''error'', Bool True),
                    (''message'',
                     Str ''ID must be a single String of 12 bytes or a string of 24 hex character'')])"

definition param_id :: "string \<Rightarrow> outcome + jsval" where
  "param_id s = (case new_ObjectID s of Inl e \<Rightarrow> Inl invalid_id | Inr oid \<Rightarrow> Inr oid)"

text \<open>
  \<^verbatim>\<open>app.param('mainResource', ...)\<close> sets \<^verbatim>\<open>req.parentField\<close>. The function
  \<^verbatim>\<open>str.camelize\<close> of the underscore.string library is a parameter of the model,
  here and in \<^verbatim>\<open>app.param('resource', ...)\<close>, where the camelized segment names the
  collection. Taking the handle \<^verbatim>\<open>req.db.collection(name)\<close> sends nothing to the store
  and is no store call.
\<close>

definition parent_field :: "(string \<Rightarrow> string) \<Rightarrow> string \<Rightarrow> string" where
  "parent_field camelize mainResource = camelize mainResource @ ''Id''"

text \<open>A request that a parameter handler has answered never reaches the route's handler.\<close>

definition with_id :: "string \<Rightarrow> (jsval \<Rightarrow> run) \<Rightarrow> run" where
  "with_id s handler =
     (case param_id s of
        Inl answered \<Rightarrow> \<lparr>calls = [], outcome = answered\<rparr>
      | Inr oid \<Rightarrow> handler oid)"

section \<open>Generic resources\<close>

text \<open>
  Each handler takes what \<^verbatim>\<open>req\<close> holds when it runs and what the driver passes to
  its callback. \<^verbatim>\<open>req.body\<close> is either missing (\<open>None\<close>) or a JSON object;
  \<^verbatim>\<open>req.query\<close> is an object. The routes are registered after
  \<^verbatim>\<open>app.use(bodyParser.json())\<close> (line 85), so \<^verbatim>\<open>req.body\<close> is what that middleware
  left: the parsed object, and the empty object for a request without a body.
\<close>

text \<open>\<^verbatim>\<open>GET /:resource\<close> (lines 182 to 191)\<close>

definition list_handler :: "string \<Rightarrow> props \<Rightarrow> jsval \<Rightarrow> props list \<Rightarrow> run" where
  "list_handler collection query err cursor =
     \<lparr>calls = [Find collection (Obj query)],
      outcome = (if truthy err then Sent 500 err else Piped cursor)\<rparr>"

definition get_list ::
  "(string \<Rightarrow> string) \<Rightarrow> string \<Rightarrow> props \<Rightarrow> jsval \<Rightarrow> props list \<Rightarrow> run" where
  "get_list camelize resource query err cursor =
     list_handler (camelize resource) query err cursor"

text \<open>\<^verbatim>\<open>GET /:resource/:id\<close> (lines 196 to 205)\<close>

definition get_handler :: "string \<Rightarrow> jsval \<Rightarrow> jsval \<Rightarrow> jsval \<Rightarrow> run" where
  "get_handler collection oid err doc =
     \<lparr>calls = [FindOne collection (Obj [(''_id'', oid)])],
      outcome = (if truthy err then Sent 500 err
                 else if \<not> truthy doc then SentStatus 404
                 else Sent 200 doc)\<rparr>"

definition get_one ::
  "(string \<Rightarrow> string) \<Rightarrow> string \<Rightarrow> string \<Rightarrow> jsval \<Rightarrow> jsval \<Rightarrow> run" where
  "get_one camelize resource id' err doc =
     with_id id' (\<lambda>oid. get_handler (camelize resource) oid err doc)"

text \<open>\<^verbatim>\<open>GET /:mainResource/:id/:resource\<close> (lines 210 to 221)\<close>

definition nested_list_handler ::
  "string \<Rightarrow> string \<Rightarrow> jsval \<Rightarrow> props \<Rightarrow> jsval \<Rightarrow> props list \<Rightarrow> run" where
  "nested_list_handler collection parentField oid query err cursor =
     (let filter' = set_prop parentField oid query
      in \<lparr>calls = [Find collection (Obj filter')],
          outcome = (if truthy err then Sent 500 err else Piped cursor)\<rparr>)"

definition get_nested ::
  "(string \<Rightarrow> string) \<Rightarrow> string \<Rightarrow> string \<Rightarrow> string \<Rightarrow> props \<Rightarrow> jsval \<Rightarrow> props list \<Rightarrow> run"
  where
  "get_nested camelize mainResource id' resource query err cursor =
     with_id id' (\<lambda>oid.
       nested_list_handler (camelize resource) (parent_field camelize mainResource) oid
         query err cursor)"

text \<open>\<^verbatim>\<open>doc && doc[0]\<close> on what the driver hands to the callback of an insert.\<close>

fun first_of :: "jsval \<Rightarrow> jsval" where
  "first_of (Arr (x # xs)) = x"
| "first_of (Obj ps) = get_prop ps ''0''"
| "first_of (Str (c # cs)) = Str [c]"
| "first_of v = Undefined"

definition inserted :: "jsval \<Rightarrow> jsval" where
  "inserted doc = (if truthy doc then first_of doc else doc)"

text \<open>\<^verbatim>\<open>POST /:resource\<close> (lines 226 to 240)\<close>

definition create_handler :: "string \<Rightarrow> props option \<Rightarrow> int \<Rightarrow> jsval \<Rightarrow> jsval \<Rightarrow> run" where
  "create_handler collection body now err doc =
     (case body of
        None \<Rightarrow> \<lparr>calls = [], outcome = Sent 400 Undefined\<rparr>
      | Some ps \<Rightarrow>
          (let ps1 = set_prop ''createdAt'' (Date now) ps;
               ps2 = set_prop ''updatedAt'' (get_prop ps1 ''createdAt'') ps1
           in \<lparr>calls = [Insert collection (Obj ps2) (Obj [(''w'', Num 1)])],
               outcome = (if truthy err then Sent 500 err else Sent 200 (inserted doc))\<rparr>))"

definition post_resource ::
  "(string \<Rightarrow> string) \<Rightarrow> string \<Rightarrow> props option \<Rightarrow> int \<Rightarrow> jsval \<Rightarrow> jsval \<Rightarrow> run" where
  "post_resource camelize resource body now err doc =
     create_handler (camelize resource) body now err doc"

text \<open>\<^verbatim>\<open>POST /:mainResource/:id/:resource\<close> (lines 245 to 260)\<close>

definition nested_create_handler ::
  "string \<Rightarrow> string \<Rightarrow> jsval \<Rightarrow> props option \<Rightarrow> int \<Rightarrow> jsval \<Rightarrow> jsval \<Rightarrow> run" where
  "nested_create_handler collection parentField oid body now err doc =
     (case body of
        None \<Rightarrow> \<lparr>calls = [], outcome = Sent 400 Undefined\<rparr>
      | Some ps \<Rightarrow>
          (let ps0 = set_prop parentField oid ps;
               ps1 = set_prop ''createdAt'' (Date now) ps0;
               ps2 = set_prop ''updatedAt'' (get_prop ps1 ''createdAt'') ps1
           in \<lparr>calls = [Insert collection (Obj ps2) (Obj [(''w'', Num 1)])],
               outcome = (if truthy err then Sent 500 err else Sent 200 (inserted doc))\<rparr>))"

definition post_nested ::
  "(string \<Rightarrow> string) \<Rightarrow> string \<Rightarrow> string \<Rightarrow> string \<Rightarrow> props option \<Rightarrow> int \<Rightarrow> jsval \<Rightarrow> jsval
     \<Rightarrow> run" where
  "post_nested camelize mainResource id' resource body now err doc =
     with_id id' (\<lambda>oid.
       nested_create_handler (camelize resource) (parent_field camelize mainResource) oid
         body now err doc)"

text \<open>\<^verbatim>\<open>PUT /:resource/:id\<close> (lines 265 to 279)\<close>

definition replace_handler :: "string \<Rightarrow> jsval \<Rightarrow> props option \<Rightarrow> int \<Rightarrow> jsval \<Rightarrow> run" where
  "replace_handler collection oid body now err =
     (case body of
        None \<Rightarrow> \<lparr>calls = [], outcome = Sent 400 Undefined\<rparr>
      | Some ps \<Rightarrow>
          (let ps1 = delete_prop ''_id'' ps;
               ps2 = set_prop ''updatedAt'' (Date now) ps1
           in \<lparr>calls = [Update collection (Obj [(''_id'', oid)]) (Obj ps2) (Obj [(''w'', Num 1)])],
               outcome = (if truthy err then Sent 500 err else SentStatus 204)\<rparr>))"

definition put_resource ::
  "(string \<Rightarrow> string) \<Rightarrow> string \<Rightarrow> string \<Rightarrow> props option \<Rightarrow> int \<Rightarrow> jsval \<Rightarrow> run" where
  "put_resource camelize resource id' body now err =
     with_id id' (\<lambda>oid. replace_handler (camelize resource) oid body now err)"

text \<open>\<^verbatim>\<open>DELETE /:resource/:id\<close> (lines 284 to 293)\<close>

definition delete_handler :: "string \<Rightarrow> jsval \<Rightarrow> jsval \<Rightarrow> jsval \<Rightarrow> run" where
  "delete_handler collection oid err nrOfRemoved =
     \<lparr>calls = [Remove collection (Obj [(''_id'', oid)])
                 (Obj [(''single'', Bool True), (''w'', Num 1)])],
      outcome = (if truthy err then Sent 500 err
                 else if nrOfRemoved = Num 0 then SentStatus 404
                 else SentStatus 204)\<rparr>"

definition delete_resource ::
  "(string \<Rightarrow> string) \<Rightarrow> string \<Rightarrow> string \<Rightarrow> jsval \<Rightarrow> jsval \<Rightarrow> run" where
  "delete_resource camelize resource id' err nrOfRemoved =
     with_id id' (\<lambda>oid. delete_handler (camelize resource) oid err nrOfRemoved)"

section \<open>Schema inference\<close>

text \<open>
  Modelled from the spec: \<^verbatim>\<open>_.merge\<close> belongs to the lodash library and is not among
  the sources. Section 4.5: a deep, right-biased merge; for object-valued fields the merge
  recurses per key, for any other field type the value of the later document overwrites
  the value the accumulator has for that key. A property whose value is \<^verbatim>\<open>undefined\<close>
  is no field of a stored document and is passed over. What happens to an array-valued
  field is the parameter \<open>arrays\<close>, a function of the accumulator's value and of the later
  array.
\<close>

fun merge_value :: "(jsval \<Rightarrow> jsval list \<Rightarrow> jsval) \<Rightarrow> jsval \<Rightarrow> jsval \<Rightarrow> jsval"
  and merge_props :: "(jsval \<Rightarrow> jsval list \<Rightarrow> jsval) \<Rightarrow> props \<Rightarrow> props \<Rightarrow> props" where
  "merge_value arrays old (Obj src) = Obj (merge_props arrays (props_of old) src)"
| "merge_value arrays old (Arr xs) = arrays old xs"
| "merge_value arrays old v = v"
| "merge_props arrays dst [] = dst"
| "merge_props arrays dst ((k, v) # src) =
     merge_props arrays
       (if v = Undefined then dst else set_prop k (merge_value arrays (get_prop dst k) v) dst)
       src"

text \<open>
  Modelled from the spec: the treatment of arrays in \<^verbatim>\<open>_.merge\<close> as section 4.5 reads,
  where an array is one more value that is not an object: the later array overwrites.
\<close>

definition overwrite :: "jsval \<Rightarrow> jsval list \<Rightarrow> jsval" where
  "overwrite old xs = Arr xs"

text \<open>
  One step of the transform stream: \<^verbatim>\<open>merged = _.merge({}, merged, doc)\<close>. The sources
  are merged into the fresh object from left to right.
\<close>

definition merge_step :: "(jsval \<Rightarrow> jsval list \<Rightarrow> jsval) \<Rightarrow> props \<Rightarrow> props \<Rightarrow> props" where
  "merge_step arrays merged doc = merge_props arrays (merge_props arrays [] merged) doc"

text \<open>The value of \<^verbatim>\<open>merged\<close> when the stream \<^verbatim>\<open>cursor\<close> has finished.\<close>

definition merge_all :: "(jsval \<Rightarrow> jsval list \<Rightarrow> jsval) \<Rightarrow> props list \<Rightarrow> props" where
  "merge_all arrays cursor = foldl (merge_step arrays) [] cursor"

text \<open>
  Modelled from the spec: the inferred value type of a field, for \<^verbatim>\<open>schema.fromObject\<close>
  of the module \<^verbatim>\<open>./schema\<close>, which is not among the sources.
\<close>

fun type_of :: "jsval \<Rightarrow> string" where
  "type_of Undefined = ''undefined''"
| "type_of Null = ''null''"
| "type_of (Bool b) = ''boolean''"
| "type_of (Num n) = ''number''"
| "type_of (Str s) = ''string''"
| "type_of (Date t) = ''date''"
| "type_of (ObjectID b) = ''objectid''"
| "type_of (Arr xs) = ''array''"
| "type_of (Obj ps) = ''object''"

text \<open>
  Modelled from the spec: the entries that a field contributes to the shape
  (\<^verbatim>\<open>schema.fromObject\<close> of \<^verbatim>\<open>./schema\<close>, not among the sources). Section 4.5: a mapping
  from field path to inferred value type. The path of a nested field is the path of the
  object that holds it, a dot and the field's name.
\<close>

fun shape :: "string \<Rightarrow> jsval \<Rightarrow> props"
  and shapes :: "string \<Rightarrow> props \<Rightarrow> props" where
  "shape path (Obj ps) = (path, Str ''object'') # shapes (path @ ''.'') ps"
| "shape path v = [(path, Str (type_of v))]"
| "shapes prefix [] = []"
| "shapes prefix ((k, v) # ps) = shape (prefix @ k) v @ shapes prefix ps"

text \<open>
  Modelled from the spec: \<^verbatim>\<open>schema.fromObject\<close> of the module \<^verbatim>\<open>./schema\<close> is not
  among the sources. Section 4.5: the object is converted into a descriptive shape, a
  mapping from field path to inferred value type.
\<close>

definition fromObject :: "props \<Rightarrow> props" where
  "fromObject ps = shapes [] ps"

text \<open>
  \<^verbatim>\<open>GET /_collection/:resource\<close> (lines 148 to 177). The handler counts the
  collection, opens a cursor on all of it, merges the documents as they arrive and, when
  the stream has finished, deletes \<^verbatim>\<open>_id\<close> from the merged object and sends its schema.
\<close>

definition inferred_schema :: "(jsval \<Rightarrow> jsval list \<Rightarrow> jsval) \<Rightarrow> props list \<Rightarrow> props" where
  "inferred_schema arrays cursor = fromObject (delete_prop ''_id'' (merge_all arrays cursor))"

definition collection_handler ::
  "(jsval \<Rightarrow> jsval list \<Rightarrow> jsval) \<Rightarrow> string \<Rightarrow> jsval \<Rightarrow> jsval \<Rightarrow> jsval \<Rightarrow> props list \<Rightarrow> run"
  where
  "collection_handler arrays resource count_err count find_err cursor =
     (if truthy count_err then \<lparr>calls = [Count resource], outcome = Sent 500 count_err\<rparr>
      else if truthy find_err
        then \<lparr>calls = [Count resource, Find resource (Obj [])], outcome = Sent 500 find_err\<rparr>
      else
        \<lparr>calls = [Count resource, Find resource (Obj [])],
         outcome = Sent 200 (Obj [(''name'', Str resource),
                                  (''count'', count),
                                  (''schema'', Obj (inferred_schema arrays cursor))])\<rparr>)"

definition get_collection ::
  "(jsval \<Rightarrow> jsval list \<Rightarrow> jsval) \<Rightarrow> (string \<Rightarrow> string) \<Rightarrow> string \<Rightarrow> jsval \<Rightarrow> jsval \<Rightarrow> jsval
     \<Rightarrow> props list \<Rightarrow> run" where
  "get_collection arrays camelize resource count_err count find_err cursor =
     collection_handler arrays (camelize resource) count_err count find_err cursor"

text \<open>
  Modelled from the spec: how the store answers a query is the database engine's business.
  Section 6: the fields of a filter are taken verbatim as an equality filter, so a document
  that a cursor yields carries every field of the filter with the filter's value.
\<close>

definition matches :: "props \<Rightarrow> props \<Rightarrow> bool" where
  "matches filter' doc = list_all (\<lambda>p. get_prop doc (fst p) = snd p) filter'"

section \<open>Properties of the webhook endpoint\<close>

lemma member_truthy: "truthy v \<Longrightarrow> \<exists>w. member v k = Inr w"
  by (cases v) auto

lemma get_prop_absent: "k \<notin> fst ` set ps \<Longrightarrow> get_prop ps k = Undefined"
  by (simp add: get_prop_def map_of_eq_None_iff [THEN iffD2])

lemma guarded_commit:
  "\<exists>c. (if truthy h then member h ''id'' else Inr h) = Inr c \<and> (\<not> truthy h \<longrightarrow> c = h)"
  using member_truthy [of h "''id''"] by (cases "truthy h") auto

lemma build_job_present:
  assumes "get_prop ps ''repository'' \<noteq> Undefined" and "get_prop ps ''repository'' \<noteq> Null"
  shows "\<exists>commit.
           build_job (Obj ps) endpoint now =
             Inr (Obj [(''fullName'', get_prop (props_of (get_prop ps ''repository'')) ''full_name''),
                       (''name'', get_prop (props_of (get_prop ps ''repository'')) ''name''),
                       (''repo'', get_prop (props_of (get_prop ps ''repository'')) ''clone_url''),
                       (''commit'', commit), (''endpoint'', endpoint), (''createdAt'', Date now),
                       (''buildAt'', Null), (''nrOfAttempts'', Num 0),
                       (''isSuccessful'', Bool False), (''message'', Null),
                       (''pusher'', get_prop ps ''pusher'')])
           \<and> (\<not> truthy (get_prop ps ''head_commit'') \<longrightarrow> commit = get_prop ps ''head_commit'')"
proof -
  have r: "member (get_prop ps ''repository'') k =
             Inr (get_prop (props_of (get_prop ps ''repository'')) k)" for k
    using assms by (cases "get_prop ps ''repository''") (auto simp: get_prop_def)
  obtain c where c:
    "(if truthy (get_prop ps ''head_commit'') then member (get_prop ps ''head_commit'') ''id''
      else Inr (get_prop ps ''head_commit'')) = Inr c"
    "\<not> truthy (get_prop ps ''head_commit'') \<longrightarrow> c = get_prop ps ''head_commit''"
    using guarded_commit by blast
  show ?thesis using r c unfolding build_job_def by simp
qed

lemma build_job_absent:
  assumes "get_prop ps ''repository'' = Undefined \<or> get_prop ps ''repository'' = Null"
  shows "build_job (Obj ps) endpoint now = Inl TypeError"
  using assms unfolding build_job_def by auto

text \<open>
  Claim C1, as the code has it. For every webhook payload, a JSON object, whose record
  insert succeeds: a payload without \<^verbatim>\<open>ref\<close> is answered 204 and the record insert is the
  only store call; so is a payload whose \<^verbatim>\<open>ref\<close> is not the string
  \<^verbatim>\<open>refs/heads/master\<close>; a payload whose \<^verbatim>\<open>ref\<close> is that string and whose
  \<^verbatim>\<open>repository\<close> is neither missing nor null makes the handler insert exactly one build
  job into \<^verbatim>\<open>buildqueue\<close>, with \<^verbatim>\<open>buildAt\<close> null and \<^verbatim>\<open>nrOfAttempts\<close> 0, and the
  answer is 201 when that insert succeeds.
\<close>

theorem hook_branch_filter:
  assumes "\<not> truthy hook_err"
  shows "(''ref'' \<notin> fst ` set ps \<longrightarrow>
            hook (Obj ps) endpoint now hook_err queue_err =
              \<lparr>calls = [Insert ''_hook'' (Obj ps) Undefined], outcome = SentStatus 204\<rparr>)
       \<and> (get_prop ps ''ref'' \<noteq> Str ''refs/heads/master'' \<longrightarrow>
            hook (Obj ps) endpoint now hook_err queue_err =
              \<lparr>calls = [Insert ''_hook'' (Obj ps) Undefined], outcome = SentStatus 204\<rparr>)
       \<and> (get_prop ps ''ref'' = Str ''refs/heads/master''
            \<and> get_prop ps ''repository'' \<noteq> Undefined \<and> get_prop ps ''repository'' \<noteq> Null \<longrightarrow>
            (\<exists>build.
               calls (hook (Obj ps) endpoint now hook_err queue_err) =
                 [Insert ''_hook'' (Obj ps) Undefined, Insert ''buildqueue'' (Obj build) Undefined]
               \<and> get_prop build ''buildAt'' = Null
               \<and> get_prop build ''nrOfAttempts'' = Num 0
               \<and> (\<not> truthy queue_err \<longrightarrow>
                    outcome (hook (Obj ps) endpoint now hook_err queue_err) = SentStatus 201)))"
proof (intro conjI impI)
  assume "''ref'' \<notin> fst ` set ps"
  then have "get_prop ps ''ref'' = Undefined" by (rule get_prop_absent)
  then show "hook (Obj ps) endpoint now hook_err queue_err =
      \<lparr>calls = [Insert ''_hook'' (Obj ps) Undefined], outcome = SentStatus 204\<rparr>"
    using assms by (simp add: hook_def Let_def)
next
  assume "get_prop ps ''ref'' \<noteq> Str ''refs/heads/master''"
  then show "hook (Obj ps) endpoint now hook_err queue_err =
      \<lparr>calls = [Insert ''_hook'' (Obj ps) Undefined], outcome = SentStatus 204\<rparr>"
    using assms by (simp add: hook_def Let_def)
next
  assume a: "get_prop ps ''ref'' = Str ''refs/heads/master''
            \<and> get_prop ps ''repository'' \<noteq> Undefined \<and> get_prop ps ''repository'' \<noteq> Null"
  then obtain build where b: "build_job (Obj ps) endpoint now = Inr (Obj build)"
      "get_prop build ''buildAt'' = Null" "get_prop build ''nrOfAttempts'' = Num 0"
    using build_job_present [of ps endpoint now] by (auto simp: get_prop_def)
  show "\<exists>build.
          calls (hook (Obj ps) endpoint now hook_err queue_err) =
            [Insert ''_hook'' (Obj ps) Undefined, Insert ''buildqueue'' (Obj build) Undefined]
          \<and> get_prop build ''buildAt'' = Null
          \<and> get_prop build ''nrOfAttempts'' = Num 0
          \<and> (\<not> truthy queue_err \<longrightarrow>
               outcome (hook (Obj ps) endpoint now hook_err queue_err) = SentStatus 201)"
    using assms a b by (intro exI [of _ build]) (simp add: hook_def Let_def)
qed

theorem hook_branch_filter_witness:
  "\<not> truthy Null
   \<and> hook (Obj [(''ref'', Str ''refs/heads/develop''), (''repository'', Obj [])])
       (Str ''ci'') 7 Null Null =
       \<lparr>calls = [Insert ''_hook''
                  (Obj [(''ref'', Str ''refs/heads/develop''), (''repository'', Obj [])])
                  Undefined],
        outcome = SentStatus 204\<rparr>
   \<and> hook (Obj [(''zen'', Str ''ping'')]) (Str ''ci'') 7 Null Null =
       \<lparr>calls = [Insert ''_hook'' (Obj [(''zen'', Str ''ping'')]) Undefined],
        outcome = SentStatus 204\<rparr>
   \<and> outcome (hook (Obj [(''ref'', Str ''refs/heads/master''),
                          (''repository'', Obj [(''name'', Str ''batman'')])])
                (Str ''ci'') 7 Null Null) = SentStatus 201"
  using hook_branch_filter
          [of Null "[(''ref'', Str ''refs/heads/develop''), (''repository'', Obj [])]"
              "Str ''ci''" 7 Null]
        hook_branch_filter [of Null "[(''zen'', Str ''ping'')]" "Str ''ci''" 7 Null]
        hook_branch_filter
          [of Null "[(''ref'', Str ''refs/heads/master''),
                     (''repository'', Obj [(''name'', Str ''batman'')])]" "Str ''ci''" 7 Null]
  by (simp add: get_prop_def hook_def build_job_def Let_def)

text \<open>
  Claim C1 as it is written fails: the record insert of this payload succeeds and its
  \<^verbatim>\<open>ref\<close> is \<^verbatim>\<open>refs/heads/master\<close>, but it has no \<^verbatim>\<open>repository\<close>; the handler
  throws while it builds the job, inserts no build job and sends no 201.
\<close>

theorem hook_branch_filter_counterexample:
  "\<not> truthy Null
   \<and> get_prop [(''ref'', Str ''refs/heads/master'')] ''ref'' = Str ''refs/heads/master''
   \<and> hook (Obj [(''ref'', Str ''refs/heads/master'')]) Undefined 0 Null Null =
       \<lparr>calls = [Insert ''_hook'' (Obj [(''ref'', Str ''refs/heads/master'')]) Undefined],
        outcome = Thrown TypeError\<rparr>"
  by (simp add: hook_def build_job_def get_prop_def)

text \<open>
  Claim C2. Whatever the request body is, the first store call of the webhook handler is
  the insert of that body into \<^verbatim>\<open>_hook\<close>; and when that insert fails, the handler
  answers 500 with the error and the record insert is its only store call, whatever the
  payload's \<^verbatim>\<open>ref\<close> is.
\<close>

theorem hook_records_first:
  "(\<exists>rest. calls (hook body endpoint now hook_err queue_err) =
             Insert ''_hook'' body Undefined # rest)
   \<and> (truthy hook_err \<longrightarrow>
        hook body endpoint now hook_err queue_err =
          \<lparr>calls = [Insert ''_hook'' body Undefined], outcome = Sent 500 hook_err\<rparr>)"
  by (auto simp: hook_def Let_def split: sum.splits)

theorem hook_records_first_witness:
  "truthy (Str ''down'') \<and>
   hook (Obj [(''ref'', Str ''refs/heads/master''), (''repository'', Obj [])])
     Undefined 0 (Str ''down'') Null =
     \<lparr>calls = [Insert ''_hook''
                (Obj [(''ref'', Str ''refs/heads/master''), (''repository'', Obj [])])
                Undefined],
      outcome = Sent 500 (Str ''down'')\<rparr>"
  using hook_records_first
          [of "Obj [(''ref'', Str ''refs/heads/master''), (''repository'', Obj [])]"
              Undefined 0 "Str ''down''" Null]
  by simp

text \<open>
  Claim C10. For a payload whose \<^verbatim>\<open>ref\<close> is \<^verbatim>\<open>refs/heads/master\<close> and whose record
  insert succeeds: when \<^verbatim>\<open>repository\<close> is missing (or null) the construction of the build
  job throws a TypeError, so the handler ends with an exception that nothing catches, after
  the record insert and without any response; when \<^verbatim>\<open>repository\<close> is an object, the job
  takes \<^verbatim>\<open>full_name\<close>, \<^verbatim>\<open>name\<close> and \<^verbatim>\<open>clone_url\<close> from it, and a missing
  \<^verbatim>\<open>head_commit\<close> only leaves \<^verbatim>\<open>commit\<close> undefined: the job is still queued.
\<close>

theorem hook_repository_unguarded:
  assumes "\<not> truthy hook_err" and "get_prop ps ''ref'' = Str ''refs/heads/master''"
  shows "(get_prop ps ''repository'' = Undefined \<or> get_prop ps ''repository'' = Null \<longrightarrow>
            hook (Obj ps) endpoint now hook_err queue_err =
              \<lparr>calls = [Insert ''_hook'' (Obj ps) Undefined], outcome = Thrown TypeError\<rparr>)
       \<and> (\<forall>rs. get_prop ps ''repository'' = Obj rs \<and> get_prop ps ''head_commit'' = Undefined \<longrightarrow>
            (\<exists>build.
               build_job (Obj ps) endpoint now = Inr (Obj build)
               \<and> get_prop build ''fullName'' = get_prop rs ''full_name''
               \<and> get_prop build ''name'' = get_prop rs ''name''
               \<and> get_prop build ''repo'' = get_prop rs ''clone_url''
               \<and> get_prop build ''commit'' = Undefined
               \<and> calls (hook (Obj ps) endpoint now hook_err queue_err) =
                   [Insert ''_hook'' (Obj ps) Undefined, Insert ''buildqueue'' (Obj build) Undefined]
               \<and> outcome (hook (Obj ps) endpoint now hook_err queue_err) =
                   (if truthy queue_err then Sent 500 queue_err else SentStatus 201)))"
proof (intro conjI impI allI)
  assume "get_prop ps ''repository'' = Undefined \<or> get_prop ps ''repository'' = Null"
  then have "build_job (Obj ps) endpoint now = Inl TypeError" by (rule build_job_absent)
  then show "hook (Obj ps) endpoint now hook_err queue_err =
              \<lparr>calls = [Insert ''_hook'' (Obj ps) Undefined], outcome = Thrown TypeError\<rparr>"
    using assms by (simp add: hook_def Let_def)
next
  fix rs
  assume a: "get_prop ps ''repository'' = Obj rs \<and> get_prop ps ''head_commit'' = Undefined"
  then obtain build where b: "build_job (Obj ps) endpoint now = Inr (Obj build)"
      "get_prop build ''fullName'' = get_prop rs ''full_name''"
      "get_prop build ''name'' = get_prop rs ''name''"
      "get_prop build ''repo'' = get_prop rs ''clone_url''"
      "get_prop build ''commit'' = Undefined"
    using build_job_present [of ps endpoint now] by (auto simp: get_prop_def)
  show "\<exists>build.
          build_job (Obj ps) endpoint now = Inr (Obj build)
          \<and> get_prop build ''fullName'' = get_prop rs ''full_name''
          \<and> get_prop build ''name'' = get_prop rs ''name''
          \<and> get_prop build ''repo'' = get_prop rs ''clone_url''
          \<and> get_prop build ''commit'' = Undefined
          \<and> calls (hook (Obj ps) endpoint now hook_err queue_err) =
              [Insert ''_hook'' (Obj ps) Undefined, Insert ''buildqueue'' (Obj build) Undefined]
          \<and> outcome (hook (Obj ps) endpoint now hook_err queue_err) =
              (if truthy queue_err then Sent 500 queue_err else SentStatus 201)"
    using assms b by (intro exI [of _ build]) (simp add: hook_def Let_def)
qed

theorem hook_repository_unguarded_witness:
  "\<not> truthy Null
   \<and> get_prop [(''ref'', Str ''refs/heads/master''), (''pusher'', Obj [(''name'', Str ''bruce'')])]
       ''ref'' = Str ''refs/heads/master''
   \<and> get_prop [(''ref'', Str ''refs/heads/master''), (''pusher'', Obj [(''name'', Str ''bruce'')])]
       ''repository'' = Undefined
   \<and> hook (Obj [(''ref'', Str ''refs/heads/master''), (''pusher'', Obj [(''name'', Str ''bruce'')])])
       Undefined 7 Null Null =
       \<lparr>calls = [Insert ''_hook''
                  (Obj [(''ref'', Str ''refs/heads/master''),
                        (''pusher'', Obj [(''name'', Str ''bruce'')])]) Undefined],
        outcome = Thrown TypeError\<rparr>
   \<and> get_prop [(''ref'', Str ''refs/heads/master''),
                (''repository'', Obj [(''full_name'', Str ''wayne/batman''), (''name'', Str ''batman''),
                                      (''clone_url'', Str ''git://cave/batman.git'')])]
       ''head_commit'' = Undefined
   \<and> hook (Obj [(''ref'', Str ''refs/heads/master''),
                 (''repository'', Obj [(''full_name'', Str ''wayne/batman''), (''name'', Str ''batman''),
                                       (''clone_url'', Str ''git://cave/batman.git'')])])
       Undefined 7 Null Null =
       \<lparr>calls = [Insert ''_hook''
                  (Obj [(''ref'', Str ''refs/heads/master''),
                        (''repository'',
                         Obj [(''full_name'', Str ''wayne/batman''), (''name'', Str ''batman''),
                              (''clone_url'', Str ''git://cave/batman.git'')])]) Undefined,
                Insert ''buildqueue''
                  (Obj [(''fullName'', Str ''wayne/batman''), (''name'', Str ''batman''),
                        (''repo'', Str ''git://cave/batman.git''), (''commit'', Undefined),
                        (''endpoint'', Undefined), (''createdAt'', Date 7), (''buildAt'', Null),
                        (''nrOfAttempts'', Num 0), (''isSuccessful'', Bool False),
                        (''message'', Null), (''pusher'', Undefined)]) Undefined],
        outcome = SentStatus 201\<rparr>"
  using hook_repository_unguarded
          [where hook_err = Null
             and ps = "[(''ref'', Str ''refs/heads/master''),
                        (''pusher'', Obj [(''name'', Str ''bruce'')])]"
             and endpoint = Undefined and now = 7 and queue_err = Null]
        hook_repository_unguarded
          [where hook_err = Null
             and ps = "[(''ref'', Str ''refs/heads/master''),
                        (''repository'',
                         Obj [(''full_name'', Str ''wayne/batman''), (''name'', Str ''batman''),
                              (''clone_url'', Str ''git://cave/batman.git'')])]"
             and endpoint = Undefined and now = 7 and queue_err = Null]
  by (simp add: get_prop_def hook_def build_job_def Let_def)

section \<open>Properties of the route parameters and of the generic resources\<close>

lemma length_from_hex: "length (from_hex s) = length s div 2"
  by (induction s rule: from_hex.induct) simp_all

lemma keys_set_prop: "fst ` set (set_prop k v ps) = insert k (fst ` set ps)"
proof (induction ps)
  case Nil
  show ?case by simp
next
  case (Cons p ps)
  show ?case
  proof (cases "fst p = k")
    case True
    then show ?thesis by (cases p) auto
  next
    case False
    then have "set_prop k v (p # ps) = p # set_prop k v ps" by (cases p) simp
    then show ?thesis using Cons.IH by auto
  qed
qed

lemma entry_set_prop: "(k, v) \<in> set (set_prop k v ps)"
  by (induction ps) auto

lemma get_set_prop: "get_prop (set_prop k v ps) k' = (if k' = k then v else get_prop ps k')"
  by (induction ps) (auto simp: get_prop_def)

lemma keys_delete_prop: "fst ` set (delete_prop k ps) = fst ` set ps - {k}"
  by (auto simp: delete_prop_def image_iff)

lemma get_delete_prop:
  "get_prop (delete_prop k ps) k' = (if k' = k then Undefined else get_prop ps k')"
  by (induction ps) (auto simp: get_prop_def delete_prop_def)

lemma parent_field_not_stamp:
  "parent_field camelize m \<noteq> ''createdAt''" "parent_field camelize m \<noteq> ''updatedAt''"
proof -
  have l: "last (parent_field camelize m) = CHR ''d''" by (simp add: parent_field_def)
  from l show "parent_field camelize m \<noteq> ''createdAt''" by auto
  from l show "parent_field camelize m \<noteq> ''updatedAt''" by auto
qed

lemma with_id_valid: "new_ObjectID s = Inr oid \<Longrightarrow> with_id s handler = handler oid"
  by (simp add: with_id_def param_id_def)

lemma with_id_invalid:
  "new_ObjectID s = Inl e \<Longrightarrow> with_id s handler = \<lparr>calls = [], outcome = invalid_id\<rparr>"
  by (simp add: with_id_def param_id_def)

lemma hex_digits: "list_all hex_digit s = (set s \<subseteq> set ''0123456789abcdefABCDEF'')"
  unfolding list_all_iff hex_digit_def by blast

text \<open>
  Claim C4. An identifier that is neither twelve bytes long nor a string of 24 hexadecimal
  digits is refused by the codec, and every route with an \<^verbatim>\<open>:id\<close> parameter then answers
  400 with the invalid-identifier message without a single store call: the route's handler
  is never entered. An identifier of either valid form is converted without error to the
  twelve bytes of a store identifier, which become \<^verbatim>\<open>req.id\<close>.
\<close>

theorem malformed_id_rejected:
  "(length s \<noteq> 12 \<and> \<not> (length s = 24 \<and> set s \<subseteq> set ''0123456789abcdefABCDEF'') \<longrightarrow>
      new_ObjectID s = Inl InvalidIdentifier
      \<and> get_one camelize resource s err doc = \<lparr>calls = [], outcome = invalid_id\<rparr>
      \<and> get_nested camelize mainResource s resource query err cursor =
          \<lparr>calls = [], outcome = invalid_id\<rparr>
      \<and> post_nested camelize mainResource s resource body now err doc =
          \<lparr>calls = [], outcome = invalid_id\<rparr>
      \<and> put_resource camelize resource s body now err = \<lparr>calls = [], outcome = invalid_id\<rparr>
      \<and> delete_resource camelize resource s err nrOfRemoved =
          \<lparr>calls = [], outcome = invalid_id\<rparr>)
   \<and> (length s = 12 \<or> (length s = 24 \<and> set s \<subseteq> set ''0123456789abcdefABCDEF'') \<longrightarrow>
        (\<exists>bytes. length bytes = 12 \<and> new_ObjectID s = Inr (ObjectID bytes)
                 \<and> param_id s = Inr (ObjectID bytes)))
   \<and> invalid_id =
       Sent 400 (Obj [(''error'', Bool True),
                      (''message'',
                       Str ''ID must be a single String of 12 bytes or a string of 24 hex character'')])"
proof (intro conjI impI)
  assume "length s \<noteq> 12 \<and> \<not> (length s = 24 \<and> set s \<subseteq> set ''0123456789abcdefABCDEF'')"
  then have "length s \<noteq> 12 \<and> \<not> (length s = 24 \<and> list_all hex_digit s)"
    unfolding hex_digits .
  then have e: "new_ObjectID s = Inl InvalidIdentifier"
    unfolding new_ObjectID_def by simp
  show "new_ObjectID s = Inl InvalidIdentifier" by (rule e)
  show "get_one camelize resource s err doc = \<lparr>calls = [], outcome = invalid_id\<rparr>"
    unfolding get_one_def using e by (rule with_id_invalid)
  show "get_nested camelize mainResource s resource query err cursor =
          \<lparr>calls = [], outcome = invalid_id\<rparr>"
    unfolding get_nested_def using e by (rule with_id_invalid)
  show "post_nested camelize mainResource s resource body now err doc =
          \<lparr>calls = [], outcome = invalid_id\<rparr>"
    unfolding post_nested_def using e by (rule with_id_invalid)
  show "put_resource camelize resource s body now err = \<lparr>calls = [], outcome = invalid_id\<rparr>"
    unfolding put_resource_def using e by (rule with_id_invalid)
  show "delete_resource camelize resource s err nrOfRemoved =
          \<lparr>calls = [], outcome = invalid_id\<rparr>"
    unfolding delete_resource_def using e by (rule with_id_invalid)
next
  assume "length s = 12 \<or> (length s = 24 \<and> set s \<subseteq> set ''0123456789abcdefABCDEF'')"
  then have v: "length s = 12 \<or> (length s = 24 \<and> list_all hex_digit s)"
    unfolding hex_digits .
  show "\<exists>bytes. length bytes = 12 \<and> new_ObjectID s = Inr (ObjectID bytes)
                 \<and> param_id s = Inr (ObjectID bytes)"
  proof (cases "length s = 12")
    case True
    then show ?thesis by (intro exI [of _ s]) (simp add: new_ObjectID_def param_id_def)
  next
    case False
    with v have "length s = 24" "list_all hex_digit s" by simp_all
    then show ?thesis
      by (intro exI [of _ "from_hex s"]) (simp add: new_ObjectID_def param_id_def length_from_hex)
  qed
next
  show "invalid_id =
       Sent 400 (Obj [(''error'', Bool True),
                      (''message'',
                       Str ''ID must be a single String of 12 bytes or a string of 24 hex character'')])"
    by (simp add: invalid_id_def)
qed

theorem malformed_id_rejected_witness:
  "length ''42'' \<noteq> 12
   \<and> \<not> (length ''42'' = 24 \<and> set ''42'' \<subseteq> set ''0123456789abcdefABCDEF'')
   \<and> delete_resource (\<lambda>r. r) ''widgets'' ''42'' Null (Num 1) =
       \<lparr>calls = [], outcome = invalid_id\<rparr>
   \<and> length ''54759eb3c090d83494e2d804'' = 24
   \<and> set ''54759eb3c090d83494e2d804'' \<subseteq> set ''0123456789abcdefABCDEF''
   \<and> (\<exists>bytes. length bytes = 12 \<and> param_id ''54759eb3c090d83494e2d804'' = Inr (ObjectID bytes))"
proof -
  have bad: "length ''42'' \<noteq> 12
      \<and> \<not> (length ''42'' = 24 \<and> set ''42'' \<subseteq> set ''0123456789abcdefABCDEF'')"
    by simp
  have good: "length ''54759eb3c090d83494e2d804'' = 24
      \<and> set ''54759eb3c090d83494e2d804'' \<subseteq> set ''0123456789abcdefABCDEF''"
    by simp
  show ?thesis
    using bad good
      malformed_id_rejected [of "''42''" "\<lambda>r. r" "''widgets''" Null Null "''repos''" "[]" "[]"
        None 0 "Num 1"]
      malformed_id_rejected [of "''54759eb3c090d83494e2d804''" "\<lambda>r. r" "''widgets''" Null Null
        "''repos''" "[]" "[]" None 0 "Num 1"]
    by blast
qed

text \<open>
  Claim C5. Under a parent path with a valid parent identifier, the document that a nested
  create inserts carries the field \<^verbatim>\<open>camelize(mainResource) + "Id"\<close> with the parent
  identifier as its value; a nested list issues one query whose filter holds that field
  with the parent identifier, next to the request's query parameters, which keep their
  values; so when the store yields only documents that satisfy the filter, every listed
  document carries the parent identifier in that field.
\<close>

theorem parent_linkage:
  assumes "new_ObjectID s = Inr oid"
  shows "(\<exists>doc.
            calls (post_nested camelize mainResource s resource (Some ps) now err reply) =
              [Insert (camelize resource) (Obj doc) (Obj [(''w'', Num 1)])]
            \<and> get_prop doc (camelize mainResource @ ''Id'') = oid)
       \<and> (\<exists>flt.
            calls (get_nested camelize mainResource s resource query err cursor) =
              [Find (camelize resource) (Obj flt)]
            \<and> get_prop flt (camelize mainResource @ ''Id'') = oid
            \<and> (\<forall>k. k \<noteq> camelize mainResource @ ''Id'' \<longrightarrow> get_prop flt k = get_prop query k)
            \<and> (\<not> truthy err \<and> (\<forall>d \<in> set cursor. matches flt d) \<longrightarrow>
                 outcome (get_nested camelize mainResource s resource query err cursor) =
                   Piped cursor
                 \<and> (\<forall>d \<in> set cursor. get_prop d (camelize mainResource @ ''Id'') = oid)))"
proof (intro conjI)
  let ?pf = "parent_field camelize mainResource"
  let ?doc = "set_prop ''updatedAt'' (Date now)
                (set_prop ''createdAt'' (Date now) (set_prop ?pf oid ps))"
  have pf: "?pf = camelize mainResource @ ''Id''" by (simp add: parent_field_def)
  have "calls (post_nested camelize mainResource s resource (Some ps) now err reply) =
          [Insert (camelize resource) (Obj ?doc) (Obj [(''w'', Num 1)])]"
    using assms
    by (simp add: post_nested_def with_id_valid nested_create_handler_def Let_def get_set_prop)
  moreover have "get_prop ?doc ?pf = oid"
    using parent_field_not_stamp [of camelize mainResource] by (simp add: get_set_prop)
  ultimately show "\<exists>doc.
            calls (post_nested camelize mainResource s resource (Some ps) now err reply) =
              [Insert (camelize resource) (Obj doc) (Obj [(''w'', Num 1)])]
            \<and> get_prop doc (camelize mainResource @ ''Id'') = oid"
    unfolding pf by blast
next
  let ?pf = "parent_field camelize mainResource"
  let ?flt = "set_prop ?pf oid query"
  have pf: "?pf = camelize mainResource @ ''Id''" by (simp add: parent_field_def)
  have run: "get_nested camelize mainResource s resource query err cursor =
          \<lparr>calls = [Find (camelize resource) (Obj ?flt)],
           outcome = (if truthy err then Sent 500 err else Piped cursor)\<rparr>"
    using assms by (simp add: get_nested_def with_id_valid nested_list_handler_def)
  have linked: "get_prop d ?pf = oid" if "matches ?flt d" for d
    using that entry_set_prop [of ?pf oid query] unfolding matches_def list_all_iff by fastforce
  show "\<exists>flt.
            calls (get_nested camelize mainResource s resource query err cursor) =
              [Find (camelize resource) (Obj flt)]
            \<and> get_prop flt (camelize mainResource @ ''Id'') = oid
            \<and> (\<forall>k. k \<noteq> camelize mainResource @ ''Id'' \<longrightarrow> get_prop flt k = get_prop query k)
            \<and> (\<not> truthy err \<and> (\<forall>d \<in> set cursor. matches flt d) \<longrightarrow>
                 outcome (get_nested camelize mainResource s resource query err cursor) =
                   Piped cursor
                 \<and> (\<forall>d \<in> set cursor. get_prop d (camelize mainResource @ ''Id'') = oid))"
    using linked unfolding pf [symmetric]
    by (intro exI [of _ ?flt]) (simp add: run get_set_prop)
qed

theorem parent_linkage_witness:
  "new_ObjectID ''abcdefghijkl'' = Inr (ObjectID ''abcdefghijkl'')
   \<and> calls (post_nested (\<lambda>r. r) ''repos'' ''abcdefghijkl'' ''issues''
        (Some [(''title'', Str ''bat'')]) 9 Null Null) =
       [Insert ''issues''
          (Obj [(''title'', Str ''bat''), (''reposId'', ObjectID ''abcdefghijkl''),
                (''createdAt'', Date 9), (''updatedAt'', Date 9)])
          (Obj [(''w'', Num 1)])]
   \<and> calls (get_nested (\<lambda>r. r) ''repos'' ''abcdefghijkl'' ''issues''
        [(''state'', Str ''open'')] Null
        [[(''state'', Str ''open''), (''reposId'', ObjectID ''abcdefghijkl'')]]) =
       [Find ''issues'' (Obj [(''state'', Str ''open''), (''reposId'', ObjectID ''abcdefghijkl'')])]
   \<and> \<not> truthy Null
   \<and> matches [(''state'', Str ''open''), (''reposId'', ObjectID ''abcdefghijkl'')]
       [(''state'', Str ''open''), (''reposId'', ObjectID ''abcdefghijkl'')]
   \<and> outcome (get_nested (\<lambda>r. r) ''repos'' ''abcdefghijkl'' ''issues''
        [(''state'', Str ''open'')] Null
        [[(''state'', Str ''open''), (''reposId'', ObjectID ''abcdefghijkl'')]]) =
       Piped [[(''state'', Str ''open''), (''reposId'', ObjectID ''abcdefghijkl'')]]"
  using parent_linkage
          [where s = "''abcdefghijkl''" and oid = "ObjectID ''abcdefghijkl''"
             and camelize = "\<lambda>r. r" and mainResource = "''repos''" and resource = "''issues''"
             and ps = "[(''title'', Str ''bat'')]" and now = 9 and err = Null and reply = Null
             and query = "[(''state'', Str ''open'')]"
             and cursor = "[[(''state'', Str ''open''), (''reposId'', ObjectID ''abcdefghijkl'')]]"]
  by (simp add: new_ObjectID_def post_nested_def get_nested_def with_id_def param_id_def
      nested_create_handler_def nested_list_handler_def parent_field_def matches_def get_prop_def)

text \<open>
  Claim C6. A replace request with a body and a valid identifier issues one update, keyed
  by \<^verbatim>\<open>{_id: req.id}\<close>, whose replacement document has no \<^verbatim>\<open>_id\<close> of its own, has
  \<^verbatim>\<open>updatedAt\<close> set to the current time and agrees with the body on every other field;
  the answer is the bare status 204, for which the handler supplies no body, when the store
  reports no error, and 500 with the error otherwise.
\<close>

theorem replace_document:
  assumes "new_ObjectID s = Inr oid"
  shows "\<exists>doc.
           calls (put_resource camelize resource s (Some ps) now err) =
             [Update (camelize resource) (Obj [(''_id'', oid)]) (Obj doc) (Obj [(''w'', Num 1)])]
           \<and> ''_id'' \<notin> fst ` set doc
           \<and> get_prop doc ''updatedAt'' = Date now
           \<and> (\<forall>k. k \<noteq> ''_id'' \<and> k \<noteq> ''updatedAt'' \<longrightarrow> get_prop doc k = get_prop ps k)
           \<and> (\<not> truthy err \<longrightarrow>
                outcome (put_resource camelize resource s (Some ps) now err) = SentStatus 204)
           \<and> (truthy err \<longrightarrow>
                outcome (put_resource camelize resource s (Some ps) now err) = Sent 500 err)"
proof -
  let ?doc = "set_prop ''updatedAt'' (Date now) (delete_prop ''_id'' ps)"
  have run: "put_resource camelize resource s (Some ps) now err =
               \<lparr>calls = [Update (camelize resource) (Obj [(''_id'', oid)]) (Obj ?doc)
                          (Obj [(''w'', Num 1)])],
                outcome = (if truthy err then Sent 500 err else SentStatus 204)\<rparr>"
    using assms by (simp add: put_resource_def with_id_valid replace_handler_def)
  have keys: "''_id'' \<notin> fst ` set ?doc"
    unfolding keys_set_prop keys_delete_prop by simp
  have stamp: "get_prop ?doc ''updatedAt'' = Date now"
    by (simp add: get_set_prop)
  have rest: "\<forall>k. k \<noteq> ''_id'' \<and> k \<noteq> ''updatedAt'' \<longrightarrow> get_prop ?doc k = get_prop ps k"
    by (simp add: get_set_prop get_delete_prop)
  show ?thesis
    using keys stamp rest by (intro exI [of _ ?doc]) (simp add: run)
qed

theorem replace_document_witness:
  "new_ObjectID ''abcdefghijkl'' = Inr (ObjectID ''abcdefghijkl'')
   \<and> \<not> truthy Null
   \<and> put_resource (\<lambda>r. r) ''widgets'' ''abcdefghijkl''
       (Some [(''_id'', Str ''other''), (''name'', Str ''bar'')]) 9 Null =
       \<lparr>calls = [Update ''widgets'' (Obj [(''_id'', ObjectID ''abcdefghijkl'')])
                  (Obj [(''name'', Str ''bar''), (''updatedAt'', Date 9)])
                  (Obj [(''w'', Num 1)])],
        outcome = SentStatus 204\<rparr>
   \<and> truthy (Str ''down'')
   \<and> outcome (put_resource (\<lambda>r. r) ''widgets'' ''abcdefghijkl''
        (Some [(''_id'', Str ''other''), (''name'', Str ''bar'')]) 9 (Str ''down'')) =
       Sent 500 (Str ''down'')"
  using replace_document
          [where s = "''abcdefghijkl''" and oid = "ObjectID ''abcdefghijkl''"
             and camelize = "\<lambda>r. r" and resource = "''widgets''"
             and ps = "[(''_id'', Str ''other''), (''name'', Str ''bar'')]"
             and now = 9 and err = Null]
        replace_document
          [where s = "''abcdefghijkl''" and oid = "ObjectID ''abcdefghijkl''"
             and camelize = "\<lambda>r. r" and resource = "''widgets''"
             and ps = "[(''_id'', Str ''other''), (''name'', Str ''bar'')]"
             and now = 9 and err = "Str ''down''"]
  by (simp add: new_ObjectID_def put_resource_def with_id_def param_id_def replace_handler_def
      delete_prop_def)

text \<open>
  Claim C7. A delete request with a valid identifier issues one remove, for the filter
  \<^verbatim>\<open>{_id: req.id}\<close> and with the option \<^verbatim>\<open>single\<close>, so that at most one document is
  asked to go; the answer is 500 on a store error, 204 when the store reports one removed
  document and 404 when it reports none.
\<close>

theorem delete_document:
  assumes "new_ObjectID s = Inr oid"
  shows "calls (delete_resource camelize resource s err nrOfRemoved) =
           [Remove (camelize resource) (Obj [(''_id'', oid)])
              (Obj [(''single'', Bool True), (''w'', Num 1)])]
       \<and> (truthy err \<longrightarrow>
            outcome (delete_resource camelize resource s err nrOfRemoved) = Sent 500 err)
       \<and> (\<not> truthy err \<and> nrOfRemoved = Num 1 \<longrightarrow>
            outcome (delete_resource camelize resource s err nrOfRemoved) = SentStatus 204)
       \<and> (\<not> truthy err \<and> nrOfRemoved = Num 0 \<longrightarrow>
            outcome (delete_resource camelize resource s err nrOfRemoved) = SentStatus 404)"
  using assms by (simp add: delete_resource_def with_id_valid delete_handler_def)

theorem delete_document_witness:
  "new_ObjectID ''abcdefghijkl'' = Inr (ObjectID ''abcdefghijkl'')
   \<and> delete_resource (\<lambda>r. r) ''widgets'' ''abcdefghijkl'' Null (Num 1) =
       \<lparr>calls = [Remove ''widgets'' (Obj [(''_id'', ObjectID ''abcdefghijkl'')])
                  (Obj [(''single'', Bool True), (''w'', Num 1)])],
        outcome = SentStatus 204\<rparr>
   \<and> outcome (delete_resource (\<lambda>r. r) ''widgets'' ''abcdefghijkl'' Null (Num 0)) = SentStatus 404
   \<and> outcome (delete_resource (\<lambda>r. r) ''widgets'' ''abcdefghijkl'' (Str ''down'') Undefined) =
       Sent 500 (Str ''down'')"
  using delete_document [of "''abcdefghijkl''" "ObjectID ''abcdefghijkl''" "\<lambda>r. r" "''widgets''"
          Null "Num 1"]
        delete_document [of "''abcdefghijkl''" "ObjectID ''abcdefghijkl''" "\<lambda>r. r" "''widgets''"
          Null "Num 0"]
        delete_document [of "''abcdefghijkl''" "ObjectID ''abcdefghijkl''" "\<lambda>r. r" "''widgets''"
          "Str ''down''" Undefined]
  by (simp add: new_ObjectID_def delete_resource_def with_id_def param_id_def delete_handler_def)

text \<open>
  The guard \<^verbatim>\<open>if (!req.body)\<close> of the three writing handlers: were \<^verbatim>\<open>req.body\<close>
  missing, each would answer 400 and issue no store call.
\<close>

lemma body_guard:
  "post_resource camelize resource None now err doc = \<lparr>calls = [], outcome = Sent 400 Undefined\<rparr>
   \<and> calls (post_nested camelize mainResource s resource None now err doc) = []
   \<and> (\<exists>b. outcome (post_nested camelize mainResource s resource None now err doc) = Sent 400 b)
   \<and> calls (put_resource camelize resource s None now err) = []
   \<and> (\<exists>b. outcome (put_resource camelize resource s None now err) = Sent 400 b)"
  by (cases "new_ObjectID s")
     (simp_all add: post_resource_def create_handler_def post_nested_def put_resource_def
        with_id_valid with_id_invalid nested_create_handler_def replace_handler_def invalid_id_def)

text \<open>
  Claim C8 does not hold of the gateway. \<^verbatim>\<open>app.use(bodyParser.json())\<close> (line 85) comes
  before every generic route, and a request without a body reaches its handler with the
  empty object as \<^verbatim>\<open>req.body\<close>, for which the guard \<^verbatim>\<open>if (!req.body)\<close> does not fire.
  Such a create request stamps the empty document, inserts it and answers 200 (500 on a
  store error); a nested create inserts the parent linkage and the stamps; a replace issues
  the update with a document that holds \<^verbatim>\<open>updatedAt\<close> only and answers 204. None is
  answered 400 and each writes to the store.
\<close>

theorem bodyless_request_written:
  "post_resource camelize resource (Some []) now err doc =
     \<lparr>calls = [Insert (camelize resource)
                (Obj [(''createdAt'', Date now), (''updatedAt'', Date now)])
                (Obj [(''w'', Num 1)])],
      outcome = (if truthy err then Sent 500 err else Sent 200 (inserted doc))\<rparr>
   \<and> (new_ObjectID s = Inr oid \<longrightarrow>
        post_nested camelize mainResource s resource (Some []) now err doc =
          \<lparr>calls = [Insert (camelize resource)
                     (Obj [(camelize mainResource @ ''Id'', oid),
                           (''createdAt'', Date now), (''updatedAt'', Date now)])
                     (Obj [(''w'', Num 1)])],
           outcome = (if truthy err then Sent 500 err else Sent 200 (inserted doc))\<rparr>
        \<and> put_resource camelize resource s (Some []) now err =
            \<lparr>calls = [Update (camelize resource) (Obj [(''_id'', oid)])
                       (Obj [(''updatedAt'', Date now)]) (Obj [(''w'', Num 1)])],
             outcome = (if truthy err then Sent 500 err else SentStatus 204)\<rparr>)"
proof (intro conjI impI)
  show "post_resource camelize resource (Some []) now err doc =
     \<lparr>calls = [Insert (camelize resource)
                (Obj [(''createdAt'', Date now), (''updatedAt'', Date now)])
                (Obj [(''w'', Num 1)])],
      outcome = (if truthy err then Sent 500 err else Sent 200 (inserted doc))\<rparr>"
    by (simp add: post_resource_def create_handler_def get_prop_def)
next
  assume v: "new_ObjectID s = Inr oid"
  have pf: "parent_field camelize mainResource = camelize mainResource @ ''Id''"
    by (simp add: parent_field_def)
  have ne: "camelize mainResource @ ''Id'' \<noteq> ''createdAt''"
    "camelize mainResource @ ''Id'' \<noteq> ''updatedAt''"
    using parent_field_not_stamp [of camelize mainResource] unfolding pf by simp_all
  show "post_nested camelize mainResource s resource (Some []) now err doc =
          \<lparr>calls = [Insert (camelize resource)
                     (Obj [(camelize mainResource @ ''Id'', oid),
                           (''createdAt'', Date now), (''updatedAt'', Date now)])
                     (Obj [(''w'', Num 1)])],
           outcome = (if truthy err then Sent 500 err else Sent 200 (inserted doc))\<rparr>"
    using v ne
    by (simp add: post_nested_def with_id_valid nested_create_handler_def pf get_prop_def)
  show "put_resource camelize resource s (Some []) now err =
            \<lparr>calls = [Update (camelize resource) (Obj [(''_id'', oid)])
                       (Obj [(''updatedAt'', Date now)]) (Obj [(''w'', Num 1)])],
             outcome = (if truthy err then Sent 500 err else SentStatus 204)\<rparr>"
    using v by (simp add: put_resource_def with_id_valid replace_handler_def delete_prop_def)
qed

theorem bodyless_request_written_witness:
  "new_ObjectID ''abcdefghijkl'' = Inr (ObjectID ''abcdefghijkl'')
   \<and> post_resource (\<lambda>r. r) ''widgets'' (Some []) 9 Null
        (Arr [Obj [(''createdAt'', Date 9), (''updatedAt'', Date 9),
                   (''_id'', ObjectID ''mnopqrstuvwx'')]]) =
       \<lparr>calls = [Insert ''widgets'' (Obj [(''createdAt'', Date 9), (''updatedAt'', Date 9)])
                  (Obj [(''w'', Num 1)])],
        outcome = Sent 200 (Obj [(''createdAt'', Date 9), (''updatedAt'', Date 9),
                                 (''_id'', ObjectID ''mnopqrstuvwx'')])\<rparr>
   \<and> put_resource (\<lambda>r. r) ''widgets'' ''abcdefghijkl'' (Some []) 9 Null =
       \<lparr>calls = [Update ''widgets'' (Obj [(''_id'', ObjectID ''abcdefghijkl'')])
                  (Obj [(''updatedAt'', Date 9)]) (Obj [(''w'', Num 1)])],
        outcome = SentStatus 204\<rparr>"
  using bodyless_request_written
          [where camelize = "\<lambda>r. r" and resource = "''widgets''" and now = 9 and err = Null
             and doc = "Arr [Obj [(''createdAt'', Date 9), (''updatedAt'', Date 9),
                                  (''_id'', ObjectID ''mnopqrstuvwx'')]]"
             and s = "''abcdefghijkl''" and oid = "ObjectID ''abcdefghijkl''"
             and mainResource = "''repos''"]
  by (simp add: new_ObjectID_def inserted_def)

section \<open>Properties of schema inference\<close>

lemma merge_props_untouched:
  "k \<notin> fst ` set src \<Longrightarrow> get_prop (merge_props arrays dst src) k = get_prop dst k"
proof (induction src arbitrary: dst)
  case Nil
  show ?case by simp
next
  case (Cons p src)
  obtain k' v' where p: "p = (k', v')" by (cases p)
  with Cons.prems have "k' \<noteq> k" "k \<notin> fst ` set src" by auto
  then show ?case using Cons.IH by (simp add: p get_set_prop)
qed

lemma merge_props_field:
  assumes "distinct (map fst src)" and "(k, v) \<in> set src" and "v \<noteq> Undefined"
  shows "get_prop (merge_props arrays dst src) k = merge_value arrays (get_prop dst k) v"
  using assms
proof (induction src arbitrary: dst)
  case Nil
  then show ?case by simp
next
  case (Cons p src)
  obtain k' v' where p: "p = (k', v')" by (cases p)
  show ?case
  proof (cases "(k, v) = p")
    case True
    then have kv: "k' = k" "v' = v" using p by simp_all
    from Cons.prems(1) have "k \<notin> fst ` set src" by (simp add: p kv)
    then show ?thesis
      using Cons.prems(3) by (simp add: p kv merge_props_untouched get_set_prop)
  next
    case False
    with Cons.prems(2) have mem: "(k, v) \<in> set src" by simp
    from Cons.prems(1) have d: "distinct (map fst src)" and "k' \<notin> fst ` set src"
      by (simp_all add: p)
    with mem have ne: "k' \<noteq> k" by force
    show ?thesis
      using Cons.IH [OF d mem Cons.prems(3)] ne by (simp add: p get_set_prop)
  qed
qed

lemma merge_all_snoc:
  "merge_all arrays (cursor @ [doc]) = merge_step arrays (merge_all arrays cursor) doc"
  by (simp add: merge_all_def)

lemma shape_paths:
  "(\<forall>p t. (p, t) \<in> set (shape path v) \<longrightarrow> p = path \<or> (\<exists>r. p = path @ ''.'' @ r))"
  "(\<forall>p t. (p, t) \<in> set (shapes prefix ps) \<longrightarrow>
      (\<exists>k \<in> fst ` set ps. p = prefix @ k \<or> (\<exists>r. p = prefix @ k @ ''.'' @ r)))"
proof (induction path v and prefix ps rule: shape_shapes.induct)
  case (1 path ps)
  show ?case
  proof (intro allI impI)
    fix p t
    assume "(p, t) \<in> set (shape path (Obj ps))"
    then consider "p = path" | "(p, t) \<in> set (shapes (path @ ''.'') ps)" by auto
    then show "p = path \<or> (\<exists>r. p = path @ ''.'' @ r)"
    proof cases
      case 1
      then show ?thesis by simp
    next
      case 2
      with "1.IH" obtain k where
        "p = (path @ ''.'') @ k \<or> (\<exists>r. p = (path @ ''.'') @ k @ ''.'' @ r)" by blast
      then have "\<exists>r. p = path @ ''.'' @ r" by auto
      then show ?thesis ..
    qed
  qed
next
  case (4 prefix k v ps)
  show ?case
  proof (intro allI impI)
    fix p t
    assume "(p, t) \<in> set (shapes prefix ((k, v) # ps))"
    then consider "(p, t) \<in> set (shape (prefix @ k) v)" | "(p, t) \<in> set (shapes prefix ps)"
      by auto
    then show "\<exists>k' \<in> fst ` set ((k, v) # ps).
                 p = prefix @ k' \<or> (\<exists>r. p = prefix @ k' @ ''.'' @ r)"
    proof cases
      case 1
      with "4.IH"(1) have "p = prefix @ k \<or> (\<exists>r. p = (prefix @ k) @ ''.'' @ r)" by blast
      then show ?thesis by auto
    next
      case 2
      with "4.IH"(2) show ?thesis by auto
    qed
  qed
qed simp_all

lemma fromObject_paths:
  assumes "p \<in> fst ` set (fromObject ps)"
  shows "\<exists>k \<in> fst ` set ps. p = k \<or> (\<exists>r. p = k @ ''.'' @ r)"
proof -
  from assms obtain t where "(p, t) \<in> set (shapes [] ps)"
    by (auto simp: fromObject_def)
  with shape_paths(2) [of "[]" ps] show ?thesis by auto
qed

lemma schema_without_id: "''_id'' \<notin> fst ` set (inferred_schema arrays cursor)"
proof
  assume "''_id'' \<in> fst ` set (inferred_schema arrays cursor)"
  then obtain k where k: "k \<in> fst ` set (delete_prop ''_id'' (merge_all arrays cursor))"
      and p: "''_id'' = k \<or> (\<exists>r. ''_id'' = k @ ''.'' @ r)"
    unfolding inferred_schema_def using fromObject_paths by blast
  from k have "k \<noteq> ''_id''" unfolding keys_delete_prop by simp
  with p obtain r where "''_id'' = k @ ''.'' @ r" by auto
  then have "CHR ''.'' \<in> set ''_id''" by (metis in_set_conv_decomp append_Cons append_Nil)
  then show False by simp
qed

lemma merge_value_plain:
  "v \<noteq> Undefined \<Longrightarrow> (\<forall>src. v \<noteq> Obj src) \<Longrightarrow> (\<forall>xs. v \<noteq> Arr xs) \<Longrightarrow>
     merge_value arrays old v = v"
  by (cases v) simp_all

lemma merge_value_overwrite:
  "(\<forall>src. v \<noteq> Obj src) \<Longrightarrow> merge_value overwrite old v = v"
  by (cases v) (simp_all add: overwrite_def)

lemma distinct_set_prop:
  "distinct (map fst ps) \<Longrightarrow> distinct (map fst (set_prop k v ps))"
proof (induction ps)
  case Nil
  show ?case by simp
next
  case (Cons p ps)
  obtain k' v' where p: "p = (k', v')" by (cases p)
  show ?case
  proof (cases "k' = k")
    case True
    then show ?thesis using Cons.prems by (simp add: p)
  next
    case False
    have "fst ` set (set_prop k v ps) = insert k (fst ` set ps)" by (rule keys_set_prop)
    then show ?thesis using False Cons by (simp add: p)
  qed
qed

lemma distinct_merge_props:
  "distinct (map fst dst) \<Longrightarrow> distinct (map fst (merge_props arrays dst src))"
proof (induction src arbitrary: dst)
  case Nil
  then show ?case by simp
next
  case (Cons p src)
  obtain k v where p: "p = (k, v)" by (cases p)
  show ?case using Cons.IH Cons.prems by (simp add: p distinct_set_prop)
qed

lemma distinct_merge_step: "distinct (map fst (merge_step arrays merged doc))"
  by (simp add: merge_step_def distinct_merge_props)

lemma get_prop_entry:
  "get_prop ps k = v \<Longrightarrow> v \<noteq> Undefined \<Longrightarrow> (k, v) \<in> set ps"
  by (auto simp: get_prop_def split: option.splits dest: map_of_SomeD)

lemma entry_get_prop:
  "distinct (map fst ps) \<Longrightarrow> (k, v) \<in> set ps \<Longrightarrow> get_prop ps k = v"
  by (simp add: get_prop_def)

lemma copy_plain:
  assumes "distinct (map fst merged)" and "get_prop merged k = v"
    and "v \<noteq> Undefined" and "\<forall>src. v \<noteq> Obj src" and "\<forall>xs. v \<noteq> Arr xs"
  shows "get_prop (merge_props arrays [] merged) k = v"
proof -
  from assms(2,3) have "(k, v) \<in> set merged" by (rule get_prop_entry)
  with assms(1,3) have "get_prop (merge_props arrays [] merged) k =
      merge_value arrays (get_prop [] k) v"
    by (intro merge_props_field)
  then show ?thesis using assms(3-5) by (simp add: merge_value_plain)
qed

lemma merge_step_keeps:
  assumes "distinct (map fst merged)" and "get_prop merged k = v"
    and "v \<noteq> Undefined" and "\<forall>src. v \<noteq> Obj src" and "\<forall>xs. v \<noteq> Arr xs"
    and "k \<notin> fst ` set doc"
  shows "get_prop (merge_step arrays merged doc) k = v"
  using assms by (simp add: merge_step_def merge_props_untouched copy_plain)

lemma merge_fold_keeps:
  assumes "distinct (map fst merged)" and "get_prop merged k = v"
    and "v \<noteq> Undefined" and "\<forall>src. v \<noteq> Obj src" and "\<forall>xs. v \<noteq> Arr xs"
    and "\<forall>doc \<in> set later. k \<notin> fst ` set doc"
  shows "get_prop (foldl (merge_step arrays) merged later) k = v"
  using assms
proof (induction later arbitrary: merged)
  case Nil
  then show ?case by simp
next
  case (Cons doc later)
  have "get_prop (merge_step arrays merged doc) k = v"
    using Cons.prems by (intro merge_step_keeps) simp_all
  then show ?case
    using Cons.IH [of "merge_step arrays merged doc"] Cons.prems distinct_merge_step
    by simp
qed

lemma merge_step_plain:
  assumes "distinct (map fst doc)" and "(k, v) \<in> set doc"
    and "v \<noteq> Undefined" and "\<forall>src. v \<noteq> Obj src" and "\<forall>xs. v \<noteq> Arr xs"
  shows "get_prop (merge_step arrays merged doc) k = v"
  using merge_props_field [of doc k v arrays "merge_props arrays [] merged"] assms
  by (simp add: merge_step_def merge_value_plain)

lemma merge_all_last_wins:
  assumes "distinct (map fst doc)" and "(k, v) \<in> set doc"
    and "v \<noteq> Undefined" and "\<forall>src. v \<noteq> Obj src" and "\<forall>xs. v \<noteq> Arr xs"
    and "\<forall>d \<in> set later. k \<notin> fst ` set d"
  shows "get_prop (merge_all arrays (earlier @ doc # later)) k = v"
proof -
  have "merge_all arrays (earlier @ doc # later) =
          foldl (merge_step arrays) (merge_step arrays (merge_all arrays earlier) doc) later"
    by (simp add: merge_all_def)
  moreover have "get_prop (merge_step arrays (merge_all arrays earlier) doc) k = v"
    using assms(1-5) by (rule merge_step_plain)
  ultimately show ?thesis
    using merge_fold_keeps [of "merge_step arrays (merge_all arrays earlier) doc" k v later arrays]
      assms(3-6) distinct_merge_step by simp
qed

lemma shapes_plain:
  assumes "(k, v) \<in> set ps" and "\<forall>src. v \<noteq> Obj src"
  shows "(prefix @ k, Str (type_of v)) \<in> set (shapes prefix ps)"
  using assms
proof (induction ps)
  case Nil
  then show ?case by simp
next
  case (Cons p ps)
  obtain k' v' where p: "p = (k', v')" by (cases p)
  show ?case
  proof (cases "(k, v) = p")
    case True
    then have "shape (prefix @ k') v' = [(prefix @ k, Str (type_of v))]"
      using Cons.prems(2) p by (cases v) auto
    then show ?thesis by (simp add: p)
  next
    case False
    with Cons.prems(1) have "(k, v) \<in> set ps" by simp
    then have "(prefix @ k, Str (type_of v)) \<in> set (shapes prefix ps)"
      using Cons.IH Cons.prems(2) by simp
    then show ?thesis by (simp add: p)
  qed
qed

lemma schema_has_field:
  assumes "get_prop (merge_all arrays cursor) k = v" and "k \<noteq> ''_id''"
    and "v \<noteq> Undefined" and "\<forall>src. v \<noteq> Obj src"
  shows "(k, Str (type_of v)) \<in> set (inferred_schema arrays cursor)"
proof -
  have "get_prop (delete_prop ''_id'' (merge_all arrays cursor)) k = v"
    using assms(1,2) by (simp add: get_delete_prop)
  then have "(k, v) \<in> set (delete_prop ''_id'' (merge_all arrays cursor))"
    using assms(3) by (rule get_prop_entry)
  then show ?thesis
    using shapes_plain [of k v _ "[]"] assms(4) by (simp add: inferred_schema_def fromObject_def)
qed

lemma merge_step_nested:
  assumes "distinct (map fst doc)" and "(k, Obj src) \<in> set doc"
  shows "\<exists>ps. get_prop (merge_step arrays merged doc) k = Obj ps
           \<and> (\<forall>j w. distinct (map fst src) \<and> (j, w) \<in> set src \<and> w \<noteq> Undefined
                  \<and> (\<forall>s. w \<noteq> Obj s) \<and> (\<forall>xs. w \<noteq> Arr xs) \<longrightarrow> get_prop ps j = w)
           \<and> (\<forall>j. j \<notin> fst ` set src \<longrightarrow>
                  get_prop ps j =
                    get_prop (props_of (get_prop (merge_props arrays [] merged) k)) j)"
proof -
  let ?old = "props_of (get_prop (merge_props arrays [] merged) k)"
  have "get_prop (merge_step arrays merged doc) k = Obj (merge_props arrays ?old src)"
    using merge_props_field [of doc k "Obj src" arrays "merge_props arrays [] merged"] assms
    by (simp add: merge_step_def)
  moreover have "get_prop (merge_props arrays ?old src) j = w"
    if "distinct (map fst src) \<and> (j, w) \<in> set src \<and> w \<noteq> Undefined
         \<and> (\<forall>s. w \<noteq> Obj s) \<and> (\<forall>xs. w \<noteq> Arr xs)" for j w
    using that merge_props_field [of src j w arrays ?old] by (simp add: merge_value_plain)
  moreover have "get_prop (merge_props arrays ?old src) j = get_prop ?old j"
    if "j \<notin> fst ` set src" for j
    using that by (rule merge_props_untouched)
  ultimately show ?thesis by blast
qed

text \<open>
  Claim C3. The merged object is a fold over the documents in stream order: one more
  document is one more merge step on the accumulator. In a step, with the later document
  an object (its property names are distinct):
  \<^item> a field of the later document that holds an object is merged key by key into what the
    accumulator holds there: inside it, a key of the later object with a value that is no
    object and no array takes that value, and a key that the later object lacks keeps what
    the accumulator had;
  \<^item> a field of the later document that holds any other value replaces the accumulator's
    value (for every treatment of arrays when the value is no array, and for an array too
    under the spec's reading);
  \<^item> a field that the later document lacks keeps what the accumulator had.
  Over the whole stream, a field therefore has the value of the last document that carries
  it, and the schema has an entry for it. The route answers with the schema of the merged
  object from which \<^verbatim>\<open>_id\<close> has been deleted after the last document, so the schema never
  has the key \<^verbatim>\<open>_id\<close>; for the documents \<^verbatim>\<open>{a: 1}\<close> and then \<^verbatim>\<open>{a: "x", b: 2}\<close>,
  each with its store identifier, the keys of the schema are \<^verbatim>\<open>a\<close> and \<^verbatim>\<open>b\<close>, and so
  they are for \<^verbatim>\<open>{a: 1}\<close> and then \<^verbatim>\<open>{b: 2}\<close>.
\<close>

theorem schema_inference:
  "merge_all arrays (cursor @ [doc]) = merge_step arrays (merge_all arrays cursor) doc
   \<and> (distinct (map fst doc) \<and> (k, v) \<in> set doc \<longrightarrow>
        (\<forall>src. v = Obj src \<longrightarrow>
           get_prop (merge_step arrays merged doc) k =
             Obj (merge_props arrays (props_of (get_prop (merge_props arrays [] merged) k)) src)
           \<and> (\<forall>j w. distinct (map fst src) \<and> (j, w) \<in> set src \<and> w \<noteq> Undefined
                  \<and> (\<forall>s. w \<noteq> Obj s) \<and> (\<forall>xs. w \<noteq> Arr xs) \<longrightarrow>
                  get_prop (props_of (get_prop (merge_step arrays merged doc) k)) j = w)
           \<and> (\<forall>j. j \<notin> fst ` set src \<longrightarrow>
                  get_prop (props_of (get_prop (merge_step arrays merged doc) k)) j =
                    get_prop (props_of (get_prop (merge_props arrays [] merged) k)) j))
        \<and> (v \<noteq> Undefined \<and> (\<forall>src. v \<noteq> Obj src) \<and> (\<forall>xs. v \<noteq> Arr xs) \<longrightarrow>
             get_prop (merge_step arrays merged doc) k = v
             \<and> ((\<forall>d \<in> set later. k \<notin> fst ` set d) \<longrightarrow>
                  get_prop (merge_all arrays (earlier @ doc # later)) k = v
                  \<and> (k \<noteq> ''_id'' \<longrightarrow>
                       (k, Str (type_of v)) \<in> set (inferred_schema arrays (earlier @ doc # later)))))
        \<and> (v \<noteq> Undefined \<and> (\<forall>src. v \<noteq> Obj src) \<longrightarrow>
             get_prop (merge_step overwrite merged doc) k = v))
   \<and> (k \<notin> fst ` set doc \<longrightarrow>
        get_prop (merge_step arrays merged doc) k = get_prop (merge_props arrays [] merged) k
        \<and> (distinct (map fst merged) \<and> get_prop merged k \<noteq> Undefined
             \<and> (\<forall>src. get_prop merged k \<noteq> Obj src) \<and> (\<forall>xs. get_prop merged k \<noteq> Arr xs) \<longrightarrow>
             get_prop (merge_step arrays merged doc) k = get_prop merged k))
   \<and> (\<not> truthy count_err \<and> \<not> truthy find_err \<longrightarrow>
        outcome (get_collection arrays camelize resource count_err count find_err cursor) =
          Sent 200 (Obj [(''name'', Str (camelize resource)),
                         (''count'', count),
                         (''schema'',
                          Obj (fromObject (delete_prop ''_id'' (merge_all arrays cursor))))]))
   \<and> ''_id'' \<notin> fst ` set (inferred_schema arrays cursor)
   \<and> map fst (inferred_schema arrays
        [[(''_id'', ObjectID b1), (''a'', Num 1)],
         [(''_id'', ObjectID b2), (''a'', Str ''x''), (''b'', Num 2)]]) = [''a'', ''b'']
   \<and> map fst (inferred_schema arrays
        [[(''_id'', ObjectID b1), (''a'', Num 1)],
         [(''_id'', ObjectID b2), (''b'', Num 2)]]) = [''a'', ''b'']"
proof (intro conjI impI allI)
  show "merge_all arrays (cursor @ [doc]) = merge_step arrays (merge_all arrays cursor) doc"
    by (rule merge_all_snoc)
next
  fix src
  assume "distinct (map fst doc) \<and> (k, v) \<in> set doc" and "v = Obj src"
  then have "distinct (map fst doc)" and "(k, Obj src) \<in> set doc" by simp_all
  then show "get_prop (merge_step arrays merged doc) k =
      Obj (merge_props arrays (props_of (get_prop (merge_props arrays [] merged) k)) src)"
    using merge_props_field [of doc k "Obj src" arrays "merge_props arrays [] merged"]
    by (simp add: merge_step_def)
next
  fix src j w
  assume "distinct (map fst doc) \<and> (k, v) \<in> set doc" and "v = Obj src"
    and w: "distinct (map fst src) \<and> (j, w) \<in> set src \<and> w \<noteq> Undefined
                  \<and> (\<forall>s. w \<noteq> Obj s) \<and> (\<forall>xs. w \<noteq> Arr xs)"
  then have "distinct (map fst doc)" and "(k, Obj src) \<in> set doc" by simp_all
  then show "get_prop (props_of (get_prop (merge_step arrays merged doc) k)) j = w"
    using merge_step_nested [of doc k src arrays merged] w by auto
next
  fix src j
  assume "distinct (map fst doc) \<and> (k, v) \<in> set doc" and "v = Obj src"
    and j: "j \<notin> fst ` set src"
  then have "distinct (map fst doc)" and "(k, Obj src) \<in> set doc" by simp_all
  then show "get_prop (props_of (get_prop (merge_step arrays merged doc) k)) j =
                    get_prop (props_of (get_prop (merge_props arrays [] merged) k)) j"
    using merge_step_nested [of doc k src arrays merged] j by auto
next
  assume "distinct (map fst doc) \<and> (k, v) \<in> set doc"
    and "v \<noteq> Undefined \<and> (\<forall>src. v \<noteq> Obj src) \<and> (\<forall>xs. v \<noteq> Arr xs)"
  then show "get_prop (merge_step arrays merged doc) k = v"
    by (intro merge_step_plain) simp_all
next
  assume "distinct (map fst doc) \<and> (k, v) \<in> set doc"
    and "v \<noteq> Undefined \<and> (\<forall>src. v \<noteq> Obj src) \<and> (\<forall>xs. v \<noteq> Arr xs)"
    and "\<forall>d \<in> set later. k \<notin> fst ` set d"
  then show "get_prop (merge_all arrays (earlier @ doc # later)) k = v"
    by (intro merge_all_last_wins) simp_all
next
  assume a: "distinct (map fst doc) \<and> (k, v) \<in> set doc"
    "v \<noteq> Undefined \<and> (\<forall>src. v \<noteq> Obj src) \<and> (\<forall>xs. v \<noteq> Arr xs)"
    "\<forall>d \<in> set later. k \<notin> fst ` set d" and id: "k \<noteq> ''_id''"
  have "get_prop (merge_all arrays (earlier @ doc # later)) k = v"
    using a by (intro merge_all_last_wins) simp_all
  then show "(k, Str (type_of v)) \<in> set (inferred_schema arrays (earlier @ doc # later))"
    using id a(2) by (intro schema_has_field) simp_all
next
  assume "distinct (map fst doc) \<and> (k, v) \<in> set doc"
    and "v \<noteq> Undefined \<and> (\<forall>src. v \<noteq> Obj src)"
  then have "distinct (map fst doc)" and "(k, v) \<in> set doc" and "v \<noteq> Undefined"
    and "merge_value overwrite (get_prop (merge_props overwrite [] merged) k) v = v"
    by (simp_all add: merge_value_overwrite)
  then show "get_prop (merge_step overwrite merged doc) k = v"
    using merge_props_field [of doc k v overwrite "merge_props overwrite [] merged"]
    by (simp add: merge_step_def)
next
  assume "k \<notin> fst ` set doc"
  then show "get_prop (merge_step arrays merged doc) k =
      get_prop (merge_props arrays [] merged) k"
    by (simp add: merge_step_def merge_props_untouched)
next
  assume "k \<notin> fst ` set doc"
    and "distinct (map fst merged) \<and> get_prop merged k \<noteq> Undefined
             \<and> (\<forall>src. get_prop merged k \<noteq> Obj src) \<and> (\<forall>xs. get_prop merged k \<noteq> Arr xs)"
  then show "get_prop (merge_step arrays merged doc) k = get_prop merged k"
    by (intro merge_step_keeps) simp_all
next
  assume "\<not> truthy count_err \<and> \<not> truthy find_err"
  then show "outcome (get_collection arrays camelize resource count_err count find_err cursor) =
          Sent 200 (Obj [(''name'', Str (camelize resource)),
                         (''count'', count),
                         (''schema'',
                          Obj (fromObject (delete_prop ''_id'' (merge_all arrays cursor))))])"
    by (simp add: get_collection_def collection_handler_def inferred_schema_def)
next
  show "''_id'' \<notin> fst ` set (inferred_schema arrays cursor)"
    by (rule schema_without_id)
next
  show "map fst (inferred_schema arrays
        [[(''_id'', ObjectID b1), (''a'', Num 1)],
         [(''_id'', ObjectID b2), (''a'', Str ''x''), (''b'', Num 2)]]) = [''a'', ''b'']"
    by (simp add: inferred_schema_def merge_all_def merge_step_def get_prop_def delete_prop_def
      fromObject_def)
next
  show "map fst (inferred_schema arrays
        [[(''_id'', ObjectID b1), (''a'', Num 1)],
         [(''_id'', ObjectID b2), (''b'', Num 2)]]) = [''a'', ''b'']"
    by (simp add: inferred_schema_def merge_all_def merge_step_def get_prop_def delete_prop_def
      fromObject_def)
qed

theorem schema_inference_witness:
  "distinct (map fst [(''a'', Str ''x''), (''o'', Obj [(''q'', Str ''y'')])])
   \<and> (''a'', Str ''x'') \<in> set [(''a'', Str ''x''), (''o'', Obj [(''q'', Str ''y'')])]
   \<and> (''o'', Obj [(''q'', Str ''y'')]) \<in> set [(''a'', Str ''x''), (''o'', Obj [(''q'', Str ''y'')])]
   \<and> get_prop (merge_step overwrite
                 [(''a'', Num 1), (''o'', Obj [(''p'', Num 1), (''q'', Num 2)])]
                 [(''a'', Str ''x''), (''o'', Obj [(''q'', Str ''y'')])]) ''a'' = Str ''x''
   \<and> get_prop (merge_step overwrite
                 [(''a'', Num 1), (''o'', Obj [(''p'', Num 1), (''q'', Num 2)])]
                 [(''a'', Str ''x''), (''o'', Obj [(''q'', Str ''y'')])]) ''o'' =
       Obj [(''p'', Num 1), (''q'', Str ''y'')]
   \<and> ''a'' \<notin> fst ` set [(''b'', Num 2)]
   \<and> get_prop (merge_step overwrite [(''a'', Num 1)] [(''b'', Num 2)]) ''a'' = Num 1
   \<and> get_prop (merge_all overwrite [[(''a'', Num 1)], [(''b'', Num 2)]]) ''a'' = Num 1
   \<and> (''a'', Str ''number'') \<in> set (inferred_schema overwrite [[(''a'', Num 1)], [(''b'', Num 2)]])
   \<and> \<not> truthy Null
   \<and> outcome (get_collection overwrite (\<lambda>r. r) ''widgets'' Null (Num 2) Null
        [[(''_id'', ObjectID ''aaaaaaaaaaaa''), (''a'', Num 1)],
         [(''_id'', ObjectID ''bbbbbbbbbbbb''), (''a'', Str ''x''), (''b'', Num 2)]]) =
       Sent 200 (Obj [(''name'', Str ''widgets''), (''count'', Num 2),
                      (''schema'', Obj [(''a'', Str ''string''), (''b'', Str ''number'')])])"
  using schema_inference
          [where arrays = overwrite and cursor = "[]"
             and doc = "[(''a'', Str ''x''), (''o'', Obj [(''q'', Str ''y'')])]"
             and k = "''a''" and v = "Str ''x''"
             and merged = "[(''a'', Num 1), (''o'', Obj [(''p'', Num 1), (''q'', Num 2)])]"
             and earlier = "[]" and later = "[]"
             and count_err = Null and find_err = Null and camelize = "\<lambda>r. r"
             and resource = "''widgets''" and count = "Num 2"]
        schema_inference
          [where arrays = overwrite
             and cursor = "[[(''_id'', ObjectID ''aaaaaaaaaaaa''), (''a'', Num 1)],
                            [(''_id'', ObjectID ''bbbbbbbbbbbb''), (''a'', Str ''x''), (''b'', Num 2)]]"
             and doc = "[(''a'', Str ''x''), (''o'', Obj [(''q'', Str ''y'')])]"
             and k = "''o''" and v = "Obj [(''q'', Str ''y'')]"
             and merged = "[(''a'', Num 1), (''o'', Obj [(''p'', Num 1), (''q'', Num 2)])]"
             and earlier = "[]" and later = "[]"
             and count_err = Null and find_err = Null and camelize = "\<lambda>r. r"
             and resource = "''widgets''" and count = "Num 2"]
        schema_inference
          [where arrays = overwrite and cursor = "[]"
             and doc = "[(''a'', Num 1)]" and k = "''a''" and v = "Num 1"
             and merged = "[]" and earlier = "[]" and later = "[[(''b'', Num 2)]]"
             and count_err = Null and find_err = Null and camelize = "\<lambda>r. r"
             and resource = "''widgets''" and count = "Num 2"]
        schema_inference
          [where arrays = overwrite and cursor = "[]"
             and doc = "[(''b'', Num 2)]" and k = "''a''" and v = "Num 1"
             and merged = "[(''a'', Num 1)]" and earlier = "[]" and later = "[]"
             and count_err = Null and find_err = Null and camelize = "\<lambda>r. r"
             and resource = "''widgets''" and count = "Num 2"]
  by (simp add: merge_all_def merge_step_def get_prop_def delete_prop_def fromObject_def
      inferred_schema_def)

end
